theory Spec2Isabelle
  imports
    Main
    "HOL-Library.Sublist"
    "HOL-Library.Char_ord"
    "HOL-Library.List_Lexorder"
begin

section \<open>Python strings\<close>

text \<open>
  A Python \<open>str\<close> is a sequence of Unicode code points. The strings that the product
  list strips, lower-cases and searches (query parameters, titles, category names) are
  modelled as lists of code points; \<open>ustr\<close> gives the code points of a literal of the
  source, which is ASCII.
\<close>

type_synonym ustring = "nat list"

definition ustr :: "string \<Rightarrow> ustring" where
  "ustr s = map of_char s"

text \<open>
  What \<open>str.lower\<close> and \<open>str.strip\<close> do beyond ASCII is decided by the Unicode
  tables of the Python runtime. The tables are a parameter of the model:
  \<open>to_lower s i\<close> is the lower-case form of the character at position \<open>i\<close> of
  \<open>s\<close> (one code point or more, never none; the position matters for the capital
  sigma), and \<open>space c\<close> says whether \<open>c\<close> is whitespace. The model consults them
  for code points from 128 on only: below 128 both operations are fixed.
\<close>

record unicode =
  to_lower :: "ustring \<Rightarrow> nat \<Rightarrow> nat \<times> nat list"
  space :: "nat \<Rightarrow> bool"

definition is_upper :: "nat \<Rightarrow> bool" where
  "is_upper c = (65 \<le> c \<and> c \<le> 90)"

text \<open>The lower-case form of the character at position \<open>i\<close> of \<open>s\<close>.\<close>

definition lower_at :: "unicode \<Rightarrow> ustring \<Rightarrow> nat \<Rightarrow> ustring" where
  "lower_at U s i =
     (let c = s ! i
      in if c < 128 then [if is_upper c then c + 32 else c]
         else (case to_lower U s i of (x, xs) \<Rightarrow> x # xs))"

text \<open>\<open>s.lower()\<close>: the lower-case forms of the characters of \<open>s\<close>, in order.\<close>

definition py_lower :: "unicode \<Rightarrow> ustring \<Rightarrow> ustring" where
  "py_lower U s = concat (map (lower_at U s) [0..<length s])"

text \<open>
  \<open>str.isspace\<close> of a character. Below 128 it accepts tab, line feed, vertical tab,
  form feed, carriage return, the four separators 28 to 31, and the space.
\<close>

definition is_space :: "unicode \<Rightarrow> nat \<Rightarrow> bool" where
  "is_space U c =
     (if c < 128 then (9 \<le> c \<and> c \<le> 13) \<or> (28 \<le> c \<and> c \<le> 32) else space U c)"

text \<open>\<open>s.strip()\<close>: leading and trailing whitespace removed.\<close>

definition py_strip :: "unicode \<Rightarrow> ustring \<Rightarrow> ustring" where
  "py_strip U s = rev (dropWhile (is_space U) (rev (dropWhile (is_space U) s)))"

text \<open>\<open>q in s\<close> on strings: \<open>q\<close> occurs in \<open>s\<close> as a contiguous run.\<close>

fun py_in :: "'a list \<Rightarrow> 'a list \<Rightarrow> bool" where
  "py_in q [] = (q = [])"
| "py_in q (c # cs) = (prefix q (c # cs) \<or> py_in q cs)"

text \<open>\<open>str(n)\<close> for an integer: its decimal digits, with a minus sign when negative.\<close>

definition digit_char :: "nat \<Rightarrow> char" where
  "digit_char d = char_of (48 + d)"

fun digits :: "nat \<Rightarrow> string" where
  "digits n = (if n < 10 then [digit_char n] else digits (n div 10) @ [digit_char (n mod 10)])"

declare digits.simps [simp del]

definition py_str :: "int \<Rightarrow> string" where
  "py_str i = (if i < 0 then CHR ''-'' # digits (nat (- i)) else digits (nat i))"

section \<open>The remote catalog and the HTTP client\<close>

text \<open>
  A product as the remote API returns it (spec section 3). The views read \<open>id\<close>,
  \<open>title\<close> and \<open>category.name\<close>; the prices of the remote catalog are taken as integers.
\<close>

record category =
  c_id :: int
  c_name :: ustring

record product =
  p_id :: int
  p_title :: ustring
  p_price :: int
  p_description :: ustring
  p_category :: category
  p_images :: "ustring list"

text \<open>The subclasses of \<open>requests.RequestException\<close> a call can end in.\<close>

datatype request_exception = Timeout | ConnectionError | HTTPError nat

text \<open>
  A \<open>requests.Response\<close>: its status code and what \<open>response.json()\<close> decodes the
  body to. A call of \<open>requests.get\<close> or \<open>requests.delete\<close> either raises or
  returns a response.
\<close>

record 'a response =
  status_code :: nat
  json :: 'a

type_synonym 'a reply = "request_exception + 'a response"

text \<open>
  \<open>response.raise_for_status()\<close> of the \<open>requests\<close> library: it raises
  \<open>HTTPError\<close> for a client error (400 to 499) or a server error (500 to 599), and
  returns for every other status.
\<close>

definition raise_for_status :: "'a response \<Rightarrow> request_exception + unit" where
  "raise_for_status r =
     (if 400 \<le> status_code r \<and> status_code r < 600 then Inl (HTTPError (status_code r))
      else Inr ())"

definition base_url :: string where
  "base_url = ''https://api.escuelajs.co/api/v1/''"

section \<open>The product views\<close>

text \<open>
  The inbound Django request: its method and its query parameters. The views look
  parameters up under literal names; the type of the values is left open, code points for
  the product list and characters for the username check.
\<close>

record 's request =
  http_method :: string
  GET :: "string \<rightharpoonup> 's"

text \<open>\<open>request.GET.get(key, default)\<close>\<close>

definition GET_get :: "'s request \<Rightarrow> string \<Rightarrow> 's \<Rightarrow> 's" where
  "GET_get request k d = (case GET request k of None \<Rightarrow> d | Some v \<Rightarrow> v)"

record template_context =
  productos :: "product list"
  categorias :: "ustring list"
  selected :: ustring

datatype view_result = Render string template_context | Redirect string

text \<open>
  \<open>product_list\<close> (the second definition of that name in \<open>products/views.py\<close>, the
  one the module ends up with). Its second argument is what the call
  \<open>requests.get(base_url + "products/", timeout=20)\<close> does.
\<close>

definition product_list :: "unicode \<Rightarrow> product list reply \<Rightarrow> ustring request \<Rightarrow> view_result" where
  "product_list U upstream request =
     (let productos =
            (case upstream of
               Inl e \<Rightarrow> []
             | Inr response \<Rightarrow>
                 (case raise_for_status response of
                    Inl e \<Rightarrow> []
                  | Inr u \<Rightarrow> json response));
          categorias = sort (remdups (map (\<lambda>p. c_name (p_category p)) productos));
          selected = GET_get request ''category'' (ustr ''All'');
          productos =
            (if selected \<noteq> ustr ''All''
             then filter (\<lambda>p. c_name (p_category p) = selected) productos
             else productos);
          query = py_lower U (py_strip U (GET_get request ''q'' []));
          productos =
            (if query \<noteq> []
             then filter (\<lambda>p. py_in query (py_lower U (ustr (py_str (p_id p))))
                              \<or> py_in query (py_lower U (p_title p))
                              \<or> py_in query (py_lower U (c_name (p_category p)))) productos
             else productos)
      in Render ''products/product_list.html''
           \<lparr>productos = productos, categorias = ustr ''All'' # categorias, selected = selected\<rparr>)"

text \<open>
  \<open>product_delete\<close> changes the remote catalog, so its model threads the world
  outside the process: the state of the remote catalog and the HTTP calls issued so far.
  The remote server is a parameter: what it answers to a call, and what the call does to
  its catalog.
\<close>

record http_call =
  verb :: string
  url :: string
  timeout :: nat

record 'c world =
  catalog :: 'c
  calls :: "http_call list"

type_synonym 'c server = "http_call \<Rightarrow> 'c \<Rightarrow> unit reply \<times> 'c"

text \<open>\<open>requests.delete(url, timeout=t)\<close>\<close>

definition requests_delete :: "'c server \<Rightarrow> string \<Rightarrow> nat \<Rightarrow> 'c world \<Rightarrow> unit reply \<times> 'c world" where
  "requests_delete server u t w =
     (let call = \<lparr>verb = ''DELETE'', url = u, timeout = t\<rparr>;
          (r, c) = server call (catalog w)
      in (r, \<lparr>catalog = c, calls = calls w @ [call]\<rparr>))"

definition product_delete :: "'c server \<Rightarrow> 's request \<Rightarrow> int \<Rightarrow> 'c world \<Rightarrow> view_result \<times> 'c world" where
  "product_delete server request product_id w =
     (let w' =
            (if http_method request = ''POST''
             then (let (r, w1) = requests_delete server (base_url @ ''products/'' @ py_str product_id) 5 w;
                       attempt = (case r of Inl e \<Rightarrow> Inl e | Inr resp \<Rightarrow> raise_for_status resp)
                   in (case attempt of
                         Inl e \<Rightarrow> w1
                       | Inr u \<Rightarrow> w1))
             else w)
      in (Redirect ''products:product_list'', w'))"

text \<open>The product list of the spec's examples (section 8), and two remote servers for it.\<close>

definition shirt :: product where
  "shirt = \<lparr>p_id = 1, p_title = ustr ''Shirt'', p_price = 10, p_description = ustr ''A shirt'',
             p_category = \<lparr>c_id = 1, c_name = ustr ''Clothes''\<rparr>, p_images = []\<rparr>"

definition mug :: product where
  "mug = \<lparr>p_id = 2, p_title = ustr ''Mug'', p_price = 5, p_description = ustr ''A mug'',
           p_category = \<lparr>c_id = 2, c_name = ustr ''Home''\<rparr>, p_images = []\<rparr>"

definition ok_reply :: "'a \<Rightarrow> 'a reply" where
  "ok_reply b = Inr \<lparr>status_code = 200, json = b\<rparr>"

definition dropping_server :: "(product list) server" where
  "dropping_server call c =
     (if verb call = ''DELETE''
      then (ok_reply (), filter (\<lambda>p. url call \<noteq> base_url @ ''products/'' @ py_str (p_id p)) c)
      else (ok_reply (), c))"

definition failing_server :: "(product list) server" where
  "failing_server call c = (Inl Timeout, c)"

text \<open>
  Unicode tables for the examples, which are ASCII and never consult them: no character
  from 128 on changes when lower-cased, and none is whitespace.
\<close>

definition plain_unicode :: unicode where
  "plain_unicode = \<lparr>to_lower = (\<lambda>s i. (s ! i, [])), space = (\<lambda>c. False)\<rparr>"

text \<open>
  Tables that agree with Unicode on the code points 128 to 255: the capital letters 192
  to 222 (but for the multiplication sign, 215) have their lower-case form 32 further on,
  and the next-line control (133) and the no-break space (160) are whitespace. They serve
  the examples with accented text.
\<close>

definition latin1_unicode :: unicode where
  "latin1_unicode =
     \<lparr>to_lower = (\<lambda>s i. (if 192 \<le> s ! i \<and> s ! i \<le> 222 \<and> s ! i \<noteq> 215
                            then s ! i + 32 else s ! i, [])),
      space = (\<lambda>c. c = 133 \<or> c = 160)\<rparr>"

text \<open>A product whose title ends in a capital E with acute accent (code point 201).\<close>

definition cafe :: product where
  "cafe = \<lparr>p_id = 3, p_title = ustr ''CAF'' @ [201], p_price = 3, p_description = ustr ''A cafe'',
            p_category = \<lparr>c_id = 2, c_name = ustr ''Home''\<rparr>, p_images = []\<rparr>"

section \<open>The account views\<close>

text \<open>
  The account views compare strings and count their characters; they neither strip them
  nor change their case. A string is a list of characters there.
\<close>

text \<open>The JSON a view answers with, and a \<open>rest_framework\<close> \<open>Response\<close>.\<close>

datatype jvalue =
    JBool bool
  | JStr string
  | JInt int
  | JList "jvalue list"
  | JObj "(string \<times> jvalue) list"

record api_response =
  status :: nat
  data :: "(string \<times> jvalue) list"

text \<open>
  The user and token tables of the host framework. A stored password is the framework's
  hash of it: \<open>check_password\<close> accepts exactly the password that was hashed.
\<close>

datatype password_hash = Hashed string

definition make_password :: "string \<Rightarrow> password_hash" where
  "make_password raw = Hashed raw"

fun check_password :: "string \<Rightarrow> password_hash \<Rightarrow> bool" where
  "check_password raw (Hashed p) = (raw = p)"

record user =
  user_id :: nat
  username :: string
  email :: string
  password :: password_hash
  first_name :: string
  last_name :: string

record token =
  key :: string
  token_user :: nat

record db =
  users :: "user list"
  tokens :: "token list"

definition empty_db :: db where
  "empty_db = \<lparr>users = [], tokens = []\<rparr>"

text \<open>The exceptions of the object-relational mapper that the views can meet.\<close>

datatype db_error = IntegrityError | MultipleObjectsReturned

text \<open>
  \<open>Token.objects.get_or_create(user=user)\<close>: the token row of the user when there is
  one; a new row otherwise, under the key \<open>k\<close> that the framework has drawn at random
  (the key is the row's primary key, so a key already in the table is refused). The
  lookup raises when it finds several rows.
\<close>

definition get_or_create :: "token list \<Rightarrow> user \<Rightarrow> string \<Rightarrow> (db_error + token \<times> bool) \<times> token list" where
  "get_or_create toks u k =
     (case filter (\<lambda>t. token_user t = user_id u) toks of
        [] \<Rightarrow>
          (if k \<in> set (map key toks) then (Inl IntegrityError, toks)
           else (let t = \<lparr>key = k, token_user = user_id u\<rparr> in (Inr (t, True), toks @ [t])))
      | [t] \<Rightarrow> (Inr (t, False), toks)
      | t # t' # ts \<Rightarrow> (Inl MultipleObjectsReturned, toks))"

text \<open>The value the submitted data give a field: empty when the field is absent.\<close>

definition field :: "(string \<rightharpoonup> string) \<Rightarrow> string \<Rightarrow> string" where
  "field d f = (case d f of None \<Rightarrow> [] | Some v \<Rightarrow> v)"

text \<open>
  The serializers of \<open>accounts/serializers.py\<close> are not among the sources; the
  definitions that stand for them follow the spec, each under a note that says so.
\<close>

text \<open>
  Modelled from the spec: the username check of \<open>UserRegistrationSerializer\<close>.
  Section 6: the username is required; section 4.1: registration fails with a validation
  error on a duplicate username.
\<close>

definition username_errors :: "user list \<Rightarrow> string \<Rightarrow> string list" where
  "username_errors us v =
     (if v = [] then [''This field is required.'']
      else if v \<in> set (map username us) then [''A user with that username already exists.'']
      else [])"

text \<open>
  Modelled from the spec: the email check of \<open>UserRegistrationSerializer\<close>.
  Section 6: the email is required.
\<close>

definition email_errors :: "string \<Rightarrow> string list" where
  "email_errors v = (if v = [] then [''This field is required.''] else [])"

text \<open>
  Modelled from the spec: the password check of \<open>UserRegistrationSerializer\<close>.
  Sections 4.1 and 4.3: the password is required and weak when shorter than 8 characters.
\<close>

definition password_errors :: "string \<Rightarrow> string list" where
  "password_errors v =
     (if v = [] then [''This field is required.'']
      else if length v < 8 then [''Ensure this field has at least 8 characters.'']
      else [])"

text \<open>
  Modelled from the spec: the confirmation check of \<open>UserRegistrationSerializer\<close>.
  Sections 4.1 and 4.3: the confirmation is required and must equal the password.
\<close>

definition password2_errors :: "string \<Rightarrow> string \<Rightarrow> string list" where
  "password2_errors v v2 =
     (if v2 = [] then [''This field is required.'']
      else if v2 \<noteq> v then [''Password fields did not match.'']
      else [])"

text \<open>
  Modelled from the spec: \<open>UserRegistrationSerializer.is_valid\<close> and
  \<open>.errors\<close>. Section 4.3: a validation failure surfaces error messages keyed by
  field; the request is valid when no field has one.
\<close>

definition registration_errors :: "user list \<Rightarrow> (string \<rightharpoonup> string) \<Rightarrow> (string \<times> string list) list" where
  "registration_errors us d =
     filter (\<lambda>(f, msgs). msgs \<noteq> [])
       [(''username'', username_errors us (field d ''username'')),
        (''email'', email_errors (field d ''email'')),
        (''password'', password_errors (field d ''password'')),
        (''password2'', password2_errors (field d ''password'') (field d ''password2''))]"

text \<open>The primary key of a new row of the user table: above every key in use.\<close>

definition new_id :: "user list \<Rightarrow> nat" where
  "new_id us = Suc (foldr max (map user_id us) 0)"

text \<open>
  Modelled from the spec: \<open>UserRegistrationSerializer.save\<close>. Section 4.1: it creates
  the user with a hashed password.
\<close>

definition create_user :: "user list \<Rightarrow> (string \<rightharpoonup> string) \<Rightarrow> user" where
  "create_user us d =
     \<lparr>user_id = new_id us, username = field d ''username'', email = field d ''email'',
      password = make_password (field d ''password''),
      first_name = field d ''first_name'', last_name = field d ''last_name''\<rparr>"

text \<open>
  Modelled from the spec: \<open>UserSerializer\<close>. Section 4.1: the public fields of a user.
\<close>

definition UserSerializer :: "user \<Rightarrow> jvalue" where
  "UserSerializer u =
     JObj [(''id'', JInt (int (user_id u))), (''username'', JStr (username u)),
           (''email'', JStr (email u)), (''first_name'', JStr (first_name u)),
           (''last_name'', JStr (last_name u))]"

text \<open>\<open>serializer.errors\<close> as the JSON of the response.\<close>

definition errors_json :: "(string \<times> string list) list \<Rightarrow> jvalue" where
  "errors_json errs = JObj (map (\<lambda>(f, msgs). (f, JList (map JStr msgs))) errs)"

text \<open>
  Modelled from the spec: the credential check of \<open>UserLoginSerializer\<close>. Section
  4.1: login authenticates against the stored hash.
\<close>

definition authenticate :: "user list \<Rightarrow> string \<Rightarrow> string \<Rightarrow> user option" where
  "authenticate us uname pw =
     (case find (\<lambda>u. username u = uname) us of
        None \<Rightarrow> None
      | Some u \<Rightarrow> (if check_password pw (password u) then Some u else None))"

text \<open>
  Modelled from the spec: \<open>UserLoginSerializer.is_valid\<close>, with the validated user
  or the errors. Section 4.3: username and password are required, with no constraint
  beyond presence; section 4.1: bad credentials are an error.
\<close>

definition login_validate :: "user list \<Rightarrow> (string \<rightharpoonup> string) \<Rightarrow> (string \<times> string list) list + user" where
  "login_validate us d =
     (let errs = filter (\<lambda>(f, msgs). msgs \<noteq> [])
                   [(''username'', (if field d ''username'' = [] then [''This field is required.''] else [])),
                    (''password'', (if field d ''password'' = [] then [''This field is required.''] else []))]
      in if errs \<noteq> [] then Inl errs
         else (case authenticate us (field d ''username'') (field d ''password'') of
                 None \<Rightarrow> Inl [(''non_field_errors'', [''Unable to log in with provided credentials.''])]
               | Some u \<Rightarrow> Inr u))"

text \<open>The two bytes of the letter o with an acute accent in the views' messages.\<close>

definition o_acute :: string where
  "o_acute = [char_of (195 :: nat), char_of (179 :: nat)]"

text \<open>
  The API views take the submitted data, the database and, where a token may be created,
  the key drawn for it; they return the response, or the exception that leaves the view,
  and the database afterwards. The \<open>api_view\<close> decorator admits one method only, so
  the test of the method in each view holds. The session that \<open>login\<close> and
  \<open>logout\<close> of the framework keep is no part of the two tables and is left out.
\<close>

definition register_api :: "db \<Rightarrow> (string \<rightharpoonup> string) \<Rightarrow> string \<Rightarrow> (db_error + api_response) \<times> db" where
  "register_api d request_data k =
     (let errs = registration_errors (users d) request_data
      in if errs = []
         then (let user = create_user (users d) request_data;
                   d1 = d\<lparr>users := users d @ [user]\<rparr>;
                   (r, toks) = get_or_create (tokens d1) user k;
                   d2 = d1\<lparr>tokens := toks\<rparr>
               in (case r of
                     Inl e \<Rightarrow> (Inl e, d2)
                   | Inr (token, created) \<Rightarrow>
                       (Inr \<lparr>status = 201,
                             data = [(''success'', JBool True),
                                     (''message'', JStr ''Usuario registrado satisfactoriamente''),
                                     (''user'', UserSerializer user),
                                     (''token'', JStr (key token))]\<rparr>, d2)))
         else (Inr \<lparr>status = 400,
                     data = [(''success'', JBool False),
                             (''message'', JStr ''Error en el registro''),
                             (''errors'', errors_json errs)]\<rparr>, d))"

definition login_api :: "db \<Rightarrow> (string \<rightharpoonup> string) \<Rightarrow> string \<Rightarrow> (db_error + api_response) \<times> db" where
  "login_api d request_data k =
     (case login_validate (users d) request_data of
        Inr user \<Rightarrow>
          (let (r, toks) = get_or_create (tokens d) user k;
               d1 = d\<lparr>tokens := toks\<rparr>
           in (case r of
                 Inl e \<Rightarrow> (Inl e, d1)
               | Inr (token, created) \<Rightarrow>
                   (Inr \<lparr>status = 200,
                         data = [(''success'', JBool True),
                                 (''message'', JStr (''Autenticaci'' @ o_acute @ ''n satisfactoria'')),
                                 (''user'', UserSerializer user),
                                 (''token'', JStr (key token))]\<rparr>, d1)))
      | Inl errs \<Rightarrow>
          (Inr \<lparr>status = 400,
                data = [(''success'', JBool False),
                        (''message'', JStr (''Error en la autenticaci'' @ o_acute @ ''n'')),
                        (''errors'', errors_json errs)]\<rparr>, d))"

text \<open>
  \<open>logout_api\<close>. Its second argument is \<open>request.user\<close> as the framework's
  authentication has resolved it: the user's key, or nothing for an anonymous request,
  which the \<open>IsAuthenticated\<close> permission turns away. \<open>request.user.auth_token\<close>
  looks the user's token row up and raises without exactly one; every exception ends in
  the 400 response.
\<close>

definition logout_api :: "db \<Rightarrow> nat option \<Rightarrow> api_response \<times> db" where
  "logout_api d request_user =
     (case request_user of
        None \<Rightarrow>
          (\<lparr>status = 401,
            data = [(''detail'', JStr ''Authentication credentials were not provided.'')]\<rparr>, d)
      | Some uid \<Rightarrow>
          (case filter (\<lambda>t. token_user t = uid) (tokens d) of
             [t] \<Rightarrow>
               (\<lparr>status = 200,
                 data = [(''success'', JBool True),
                         (''message'', JStr (''Sesi'' @ o_acute @ ''n cerrada exitosamente''))]\<rparr>,
                d\<lparr>tokens := filter (\<lambda>t'. key t' \<noteq> key t) (tokens d)\<rparr>)
           | [] \<Rightarrow>
               (\<lparr>status = 400,
                 data = [(''success'', JBool False),
                         (''message'', JStr (''Error al cerrar sesi'' @ o_acute @ ''n'')),
                         (''error'', JStr ''User has no auth_token.'')]\<rparr>, d)
           | t # t' # ts \<Rightarrow>
               (\<lparr>status = 400,
                 data = [(''success'', JBool False),
                         (''message'', JStr (''Error al cerrar sesi'' @ o_acute @ ''n'')),
                         (''error'', JStr ''get() returned more than one Token'')]\<rparr>, d)))"

definition check_username_api :: "db \<Rightarrow> string request \<Rightarrow> api_response \<times> db" where
  "check_username_api d request =
     (let username = GET_get request ''username'' ''''
      in if username = []
         then (\<lparr>status = 400,
                 data = [(''success'', JBool False),
                         (''message'', JStr ''Debe proporcionar un nombre de usuario'')]\<rparr>, d)
         else (let exists = list_ex (\<lambda>u. user.username u = username) (users d)
               in (\<lparr>status = 200,
                     data = [(''success'', JBool True),
                             (''available'', JBool (\<not> exists)),
                             (''message'', JStr (if exists then ''Nombre de usuario no disponible''
                                                else ''Nombre de usuario disponible''))]\<rparr>, d)))"

text \<open>A history of account operations, run from a database.\<close>

datatype account_op =
    Register "string \<rightharpoonup> string" string
  | Login "string \<rightharpoonup> string" string
  | Logout "nat option"

fun apply_op :: "db \<Rightarrow> account_op \<Rightarrow> db" where
  "apply_op d (Register request_data k) = snd (register_api d request_data k)"
| "apply_op d (Login request_data k) = snd (login_api d request_data k)"
| "apply_op d (Logout request_user) = snd (logout_api d request_user)"

definition run :: "account_op list \<Rightarrow> db \<Rightarrow> db" where
  "run ops d = foldl apply_op d ops"

section \<open>Notions the properties are stated with\<close>

text \<open>A history without a logout.\<close>

fun is_logout :: "account_op \<Rightarrow> bool" where
  "is_logout (Logout request_user) = True"
| "is_logout (Register request_data k) = False"
| "is_logout (Login request_data k) = False"

definition no_logout :: "account_op list \<Rightarrow> bool" where
  "no_logout ops = list_all (\<lambda>op. \<not> is_logout op) ops"

text \<open>A user and a database for the examples.\<close>

definition ana_form :: "string \<rightharpoonup> string" where
  "ana_form = [''username'' \<mapsto> ''ana'', ''email'' \<mapsto> ''ana@example.org'',
               ''password'' \<mapsto> ''s3cretpass'', ''password2'' \<mapsto> ''s3cretpass'']"

definition ana :: user where
  "ana = \<lparr>user_id = 1, username = ''ana'', email = ''ana@example.org'',
           password = Hashed ''s3cretpass'', first_name = '''', last_name = ''''\<rparr>"

definition ana_db :: db where
  "ana_db = \<lparr>users = [ana], tokens = [\<lparr>key = ''k1'', token_user = 1\<rparr>]\<rparr>"

definition ana_login :: "string \<rightharpoonup> string" where
  "ana_login = [''username'' \<mapsto> ''ana'', ''password'' \<mapsto> ''s3cretpass'']"

text \<open>
  User \<open>u\<close> is the one its username finds in the user table, and \<open>t\<close> is its one row
  of the token table.
\<close>

definition holds_token :: "user \<Rightarrow> token \<Rightarrow> db \<Rightarrow> bool" where
  "holds_token u t d =
     (find (\<lambda>x. username x = username u) (users d) = Some u
      \<and> filter (\<lambda>x. token_user x = user_id u) (tokens d) = [t])"

section \<open>Properties of the string operations\<close>

lemma py_in_sublist: "py_in q s = sublist q s"
  by (induction s) (simp_all add: sublist_Cons_right)

lemma py_in_iff: "py_in q s \<longleftrightarrow> (\<exists>before after. s = before @ q @ after)"
  by (simp add: py_in_sublist sublist_def)

text \<open>Lower-casing never empties a string, whatever the Unicode tables.\<close>

lemma lower_at_nonempty: "lower_at U s i \<noteq> []"
  by (simp add: lower_at_def Let_def split: prod.splits)

lemma py_lower_Nil_iff: "py_lower U s = [] \<longleftrightarrow> s = []"
proof (cases s)
  case Nil
  then show ?thesis by (simp add: py_lower_def)
next
  case (Cons c cs)
  then have "[0..<length s] = 0 # [Suc 0..<length s]"
    by (simp add: upt_conv_Cons del: upt_Suc)
  then have "py_lower U s = lower_at U s 0 @ concat (map (lower_at U s) [Suc 0..<length s])"
    by (simp add: py_lower_def)
  then show ?thesis
    using Cons lower_at_nonempty [of U s 0] by simp
qed

text \<open>On ASCII text \<open>py_lower\<close> is the map of A to Z onto a to z.\<close>

lemma concat_singletons: "concat (map (\<lambda>i. [g i]) xs) = map g xs"
  by (induction xs) simp_all

lemma py_lower_ascii:
  assumes "\<forall>c \<in> set s. c < 128"
  shows "py_lower U s = map (\<lambda>c. if is_upper c then c + 32 else c) s"
proof -
  let ?f = "\<lambda>c. if is_upper c then c + 32 else c"
  have "map (lower_at U s) [0..<length s] = map (\<lambda>i. [?f (s ! i)]) [0..<length s]"
    using assms by (intro map_cong) (auto simp: lower_at_def Let_def)
  then have "py_lower U s = concat (map (\<lambda>i. [?f (s ! i)]) [0..<length s])"
    by (simp only: py_lower_def)
  then have "py_lower U s = map (\<lambda>i. ?f (s ! i)) [0..<length s]"
    by (simp only: concat_singletons)
  also have "\<dots> = map ?f (map (\<lambda>i. s ! i) [0..<length s])"
    by simp
  also have "\<dots> = map ?f s"
    by (simp only: map_nth)
  finally show ?thesis .
qed

text \<open>A string strips to nothing exactly when all its characters are whitespace.\<close>

lemma py_strip_Nil_iff: "py_strip U s = [] \<longleftrightarrow> (\<forall>c \<in> set s. is_space U c)"
proof -
  have "py_strip U s = [] \<longleftrightarrow> dropWhile (is_space U) (rev (dropWhile (is_space U) s)) = []"
    by (simp add: py_strip_def)
  also have "\<dots> \<longleftrightarrow> (\<forall>c \<in> set (dropWhile (is_space U) s). is_space U c)"
    by (simp add: dropWhile_eq_Nil_conv)
  also have "\<dots> \<longleftrightarrow> (\<forall>c \<in> set s. is_space U c)"
  proof
    assume a: "\<forall>c \<in> set (dropWhile (is_space U) s). is_space U c"
    show "\<forall>c \<in> set s. is_space U c"
    proof (cases "dropWhile (is_space U) s")
      case Nil
      then show ?thesis by (simp add: dropWhile_eq_Nil_conv)
    next
      case (Cons x xs)
      then have "\<not> is_space U x"
        using hd_dropWhile [of "is_space U" s] by simp
      moreover have "is_space U x"
        using a Cons by simp
      ultimately show ?thesis by simp
    qed
  next
    assume "\<forall>c \<in> set s. is_space U c"
    then show "\<forall>c \<in> set (dropWhile (is_space U) s). is_space U c"
      using set_dropWhileD by fastforce
  qed
  finally show ?thesis .
qed

text \<open>
  Beyond ASCII the tables decide: where they count the no-break space (160) as whitespace
  it is stripped, and where they lower the capital E with acute (201) to the small one
  (233) so does \<open>py_lower\<close>.
\<close>

lemma py_strip_no_break_space: "space U 160 \<Longrightarrow> py_strip U [160] = []"
  by (simp add: py_strip_Nil_iff is_space_def)

lemma py_lower_e_acute:
  assumes "to_lower U (ustr ''CAF'' @ [201]) 3 = (233, [])"
  shows "py_lower U (ustr ''CAF'' @ [201]) = ustr ''caf'' @ [233]"
  using assms
  by (simp add: py_lower_def lower_at_def ustr_def is_upper_def numeral_3_eq_3
      upt_rec [of 0] upt_rec [of 1] upt_rec [of 2] upt_rec [of 3] upt_rec [of 4])

text \<open>On ASCII text neither operation depends on the tables.\<close>

lemma is_space_ascii: "c < 128 \<Longrightarrow> is_space U c = is_space U' c"
  by (simp add: is_space_def)

lemma py_strip_ascii:
  assumes "\<forall>c \<in> set s. c < 128"
  shows "py_strip U s = py_strip U' s"
proof -
  have a: "dropWhile (is_space U) s = dropWhile (is_space U') s"
    using assms by (intro dropWhile_cong) (auto simp: is_space_ascii [of _ U U'])
  have "\<forall>c \<in> set (rev (dropWhile (is_space U') s)). c < 128"
    using assms by (auto dest: set_dropWhileD)
  then have "dropWhile (is_space U) (rev (dropWhile (is_space U') s))
             = dropWhile (is_space U') (rev (dropWhile (is_space U') s))"
    by (intro dropWhile_cong) (auto simp: is_space_ascii [of _ U U'])
  with a show ?thesis
    by (simp add: py_strip_def)
qed

lemma py_strip_subset: "set (py_strip U s) \<subseteq> set s"
  by (auto simp: py_strip_def dest!: set_dropWhileD)

lemma py_lower_ascii_tables:
  "\<forall>c \<in> set s. c < 128 \<Longrightarrow> py_lower U s = py_lower U' s"
  by (simp add: py_lower_ascii)

lemma digits_ascii: "\<forall>c \<in> set (digits n). (of_char c :: nat) < 128"
proof (induction n rule: digits.induct)
  case (1 n)
  show ?case
  proof (cases "n < 10")
    case True
    then show ?thesis
      by (subst digits.simps) (simp add: digit_char_def)
  next
    case False
    have "n mod 10 < 10" by simp
    then have "(of_char (digit_char (n mod 10)) :: nat) < 128"
      unfolding digit_char_def by simp
    with False 1 show ?thesis
      by (subst digits.simps) auto
  qed
qed

lemma py_str_ascii: "\<forall>c \<in> set (ustr (py_str i)). c < 128"
  using digits_ascii by (auto simp: py_str_def ustr_def)

lemma raise_for_status_ok:
  "status_code r < 400 \<or> 600 \<le> status_code r \<Longrightarrow> raise_for_status r = Inr ()"
  by (auto simp: raise_for_status_def)

section \<open>Properties of the product list\<close>

lemma sort_example:
  "sort (remdups (map (\<lambda>p. c_name (p_category p)) [shirt, mug])) = [ustr ''Clothes'', ustr ''Home'']"
  by code_simp

lemma no_query_example: "py_strip plain_unicode [] = []"
  by (simp add: py_strip_def)

text \<open>
  Claim C1, as the code has it. For every fetched upstream product list (the call returns
  a response whose status is no client or server error) and every selected category name
  other than \<open>All\<close>, when the request carries no search term (\<open>q\<close> is absent, or
  blank once stripped), \<open>product_list\<close> renders exactly the products whose category
  name equals the selected name, in their original order. This holds for all strings and
  whatever the Unicode tables of the runtime.
\<close>

theorem product_list_category:
  assumes "status_code r < 400 \<or> 600 \<le> status_code r"
    and "GET request ''category'' = Some sel"
    and "sel \<noteq> ustr ''All''"
    and "py_strip U (GET_get request ''q'' []) = []"
  shows "product_list U (Inr r) request =
           Render ''products/product_list.html''
             \<lparr>productos = filter (\<lambda>p. c_name (p_category p) = sel) (json r),
              categorias = ustr ''All'' # sort (remdups (map (\<lambda>p. c_name (p_category p)) (json r))),
              selected = sel\<rparr>"
proof -
  have "raise_for_status r = Inr ()"
    using assms(1) by (rule raise_for_status_ok)
  moreover have "GET_get request ''category'' (ustr ''All'') = sel"
    using assms(2) by (simp add: GET_get_def)
  moreover have "py_lower U (py_strip U (GET_get request ''q'' [])) = []"
    using assms(4) by (simp add: py_lower_Nil_iff)
  ultimately show ?thesis
    using assms(3) by (simp add: product_list_def Let_def)
qed

text \<open>The example of the spec: of the shirt and the mug, \<open>Clothes\<close> selects the shirt.\<close>

theorem product_list_category_witness:
  "product_list plain_unicode (ok_reply [shirt, mug])
     \<lparr>http_method = ''GET'', GET = [''category'' \<mapsto> ustr ''Clothes'']\<rparr> =
     Render ''products/product_list.html''
       \<lparr>productos = [shirt], categorias = [ustr ''All'', ustr ''Clothes'', ustr ''Home''],
        selected = ustr ''Clothes''\<rparr>"
  using product_list_category [of "\<lparr>status_code = 200, json = [shirt, mug]\<rparr>"
      "\<lparr>http_method = ''GET'', GET = [''category'' \<mapsto> ustr ''Clothes'']\<rparr>" "ustr ''Clothes''"
      plain_unicode] sort_example no_query_example
  by (simp add: ok_reply_def GET_get_def shirt_def mug_def ustr_def)

text \<open>
  With a search term beside the category the search filter runs too: for the same list,
  \<open>category=Clothes\<close> and \<open>q=mug\<close> leave no product, although the shirt is in the
  selected category.
\<close>

theorem product_list_category_counterexample:
  "product_list plain_unicode (ok_reply [shirt, mug])
     \<lparr>http_method = ''GET'', GET = [''category'' \<mapsto> ustr ''Clothes'', ''q'' \<mapsto> ustr ''mug'']\<rparr> =
     Render ''products/product_list.html''
       \<lparr>productos = [], categorias = [ustr ''All'', ustr ''Clothes'', ustr ''Home''],
        selected = ustr ''Clothes''\<rparr>
   \<and> filter (\<lambda>p. c_name (p_category p) = ustr ''Clothes'') [shirt, mug] = [shirt]"
  by code_simp

lemma search_example:
  "filter (\<lambda>p. sublist (py_lower plain_unicode (py_strip plain_unicode (ustr ''mug'')))
                   (py_lower plain_unicode (ustr (py_str (p_id p))))
               \<or> sublist (py_lower plain_unicode (py_strip plain_unicode (ustr ''mug'')))
                   (py_lower plain_unicode (p_title p))
               \<or> sublist (py_lower plain_unicode (py_strip plain_unicode (ustr ''mug'')))
                   (py_lower plain_unicode (c_name (p_category p))))
     [shirt, mug] = [mug]"
  by code_simp

lemma strip_example: "py_strip plain_unicode (ustr ''mug'') \<noteq> []"
  by code_simp

text \<open>
  Claim C2, as the code has it. For every fetched upstream product list and every search
  term that is not blank once stripped of surrounding whitespace, \<open>product_list\<close>
  renders exactly the products (of the selected category, when one other than \<open>All\<close>
  is selected) for which the stripped, lower-cased term occurs in the lower-cased id (as a
  string), title or category name. This holds for all strings and whatever the Unicode
  tables of the runtime.
\<close>

theorem product_list_search:
  assumes "status_code r < 400 \<or> 600 \<le> status_code r"
    and "py_strip U (GET_get request ''q'' []) \<noteq> []"
  shows "product_list U (Inr r) request =
           Render ''products/product_list.html''
             \<lparr>productos =
                filter (\<lambda>p. sublist (py_lower U (py_strip U (GET_get request ''q'' [])))
                                (py_lower U (ustr (py_str (p_id p))))
                            \<or> sublist (py_lower U (py_strip U (GET_get request ''q'' [])))
                                (py_lower U (p_title p))
                            \<or> sublist (py_lower U (py_strip U (GET_get request ''q'' [])))
                                (py_lower U (c_name (p_category p))))
                  (if GET_get request ''category'' (ustr ''All'') \<noteq> ustr ''All''
                   then filter (\<lambda>p. c_name (p_category p) = GET_get request ''category'' (ustr ''All''))
                          (json r)
                   else json r),
              categorias = ustr ''All'' # sort (remdups (map (\<lambda>p. c_name (p_category p)) (json r))),
              selected = GET_get request ''category'' (ustr ''All'')\<rparr>"
proof -
  have "raise_for_status r = Inr ()"
    using assms(1) by (rule raise_for_status_ok)
  moreover have "py_lower U (py_strip U (GET_get request ''q'' [])) \<noteq> []"
    using assms(2) by (simp add: py_lower_Nil_iff)
  ultimately show ?thesis
    by (simp add: product_list_def Let_def py_in_sublist)
qed

text \<open>The example of the spec: of the shirt and the mug, \<open>q=mug\<close> finds the mug.\<close>

theorem product_list_search_witness:
  "product_list plain_unicode (ok_reply [shirt, mug])
     \<lparr>http_method = ''GET'', GET = [''q'' \<mapsto> ustr ''mug'']\<rparr> =
     Render ''products/product_list.html''
       \<lparr>productos = [mug], categorias = [ustr ''All'', ustr ''Clothes'', ustr ''Home''],
        selected = ustr ''All''\<rparr>"
  using product_list_search [of "\<lparr>status_code = 200, json = [shirt, mug]\<rparr>" plain_unicode
      "\<lparr>http_method = ''GET'', GET = [''q'' \<mapsto> ustr ''mug'']\<rparr>"]
    sort_example search_example strip_example
  by (simp add: ok_reply_def GET_get_def)

text \<open>
  The term is stripped before it is compared: \<open>q\<close> with a leading space still finds the
  mug, although the lower-cased term with its space occurs in none of the mug's fields.
\<close>

theorem product_list_search_counterexample:
  "product_list plain_unicode (ok_reply [shirt, mug])
     \<lparr>http_method = ''GET'', GET = [''q'' \<mapsto> ustr '' mug'']\<rparr> =
     Render ''products/product_list.html''
       \<lparr>productos = [mug], categorias = [ustr ''All'', ustr ''Clothes'', ustr ''Home''],
        selected = ustr ''All''\<rparr>
   \<and> \<not> sublist (py_lower plain_unicode (ustr '' mug'')) (py_lower plain_unicode (ustr (py_str (p_id mug))))
   \<and> \<not> sublist (py_lower plain_unicode (ustr '' mug'')) (py_lower plain_unicode (p_title mug))
   \<and> \<not> sublist (py_lower plain_unicode (ustr '' mug''))
         (py_lower plain_unicode (c_name (p_category mug)))"
  by code_simp

text \<open>
  Claim C3, as the code has it. If the upstream request raises (a timeout, a connection
  failure) or answers with a client or server error status (400 to 599),
  \<open>product_list\<close> renders the page with an empty product sequence: the exception does
  not leave the view.
\<close>

theorem product_list_upstream_failure:
  "product_list U (Inl e) request =
     Render ''products/product_list.html''
       \<lparr>productos = [], categorias = [ustr ''All''],
        selected = GET_get request ''category'' (ustr ''All'')\<rparr>
   \<and> (400 \<le> status_code r \<and> status_code r < 600 \<longrightarrow>
        product_list U (Inr r) request =
          Render ''products/product_list.html''
            \<lparr>productos = [], categorias = [ustr ''All''],
             selected = GET_get request ''category'' (ustr ''All'')\<rparr>)"
  by (simp add: product_list_def Let_def raise_for_status_def)

theorem product_list_upstream_failure_witness:
  "product_list plain_unicode (Inl Timeout) \<lparr>http_method = ''GET'', GET = Map.empty\<rparr> =
     Render ''products/product_list.html''
       \<lparr>productos = [], categorias = [ustr ''All''], selected = ustr ''All''\<rparr>
   \<and> product_list plain_unicode (Inr \<lparr>status_code = 503, json = [shirt, mug]\<rparr>)
        \<lparr>http_method = ''GET'', GET = Map.empty\<rparr> =
     Render ''products/product_list.html''
       \<lparr>productos = [], categorias = [ustr ''All''], selected = ustr ''All''\<rparr>"
  using product_list_upstream_failure [of plain_unicode Timeout "\<lparr>http_method = ''GET'', GET = Map.empty\<rparr>"
      "\<lparr>status_code = 503, json = [shirt, mug]\<rparr>"]
  by (simp add: GET_get_def)

text \<open>
  A status outside 200 to 299 that is no client or server error passes
  \<open>raise_for_status\<close>: the body of a response with status 300 is listed.
\<close>

theorem product_list_upstream_failure_counterexample:
  "product_list plain_unicode (Inr \<lparr>status_code = 300, json = [shirt, mug]\<rparr>)
     \<lparr>http_method = ''GET'', GET = Map.empty\<rparr> =
     Render ''products/product_list.html''
       \<lparr>productos = [shirt, mug], categorias = [ustr ''All'', ustr ''Clothes'', ustr ''Home''],
        selected = ustr ''All''\<rparr>"
  by code_simp

text \<open>
  On ASCII text the page does not depend on the Unicode tables: the examples above, stated
  with \<open>plain_unicode\<close>, come out the same under every table.
\<close>

lemma product_list_ascii:
  assumes q: "\<forall>c \<in> set (GET_get request ''q'' []). c < 128"
    and ps: "\<And>r p. upstream = Inr r \<Longrightarrow> p \<in> set (json r) \<Longrightarrow>
               (\<forall>c \<in> set (p_title p). c < 128) \<and> (\<forall>c \<in> set (c_name (p_category p)). c < 128)"
  shows "product_list U upstream request = product_list U' upstream request"
proof -
  let ?q = "GET_get request ''q'' []"
  have s: "py_strip U ?q = py_strip U' ?q"
    using q by (rule py_strip_ascii)
  have "\<forall>c \<in> set (py_strip U' ?q). c < 128"
    using q py_strip_subset [of U' ?q] by auto
  then have l: "py_lower U (py_strip U ?q) = py_lower U' (py_strip U' ?q)"
    using s by (simp add: py_lower_ascii_tables [of _ U U'])
  show ?thesis
  proof (cases upstream)
    case (Inl e)
    then show ?thesis
      by (simp add: product_list_def Let_def)
  next
    case (Inr r)
    have f: "\<And>xs. set xs \<subseteq> set (json r) \<Longrightarrow>
        filter (\<lambda>p. py_in (py_lower U' (py_strip U' ?q)) (py_lower U (ustr (py_str (p_id p))))
                   \<or> py_in (py_lower U' (py_strip U' ?q)) (py_lower U (p_title p))
                   \<or> py_in (py_lower U' (py_strip U' ?q)) (py_lower U (c_name (p_category p)))) xs
        = filter (\<lambda>p. py_in (py_lower U' (py_strip U' ?q)) (py_lower U' (ustr (py_str (p_id p))))
                   \<or> py_in (py_lower U' (py_strip U' ?q)) (py_lower U' (p_title p))
                   \<or> py_in (py_lower U' (py_strip U' ?q)) (py_lower U' (c_name (p_category p)))) xs"
    proof -
      fix xs assume sub: "set xs \<subseteq> set (json r)"
      show "?thesis xs"
      proof (rule filter_cong [OF refl])
        fix p assume "p \<in> set xs"
        then have "p \<in> set (json r)" using sub by auto
        then have "py_lower U (p_title p) = py_lower U' (p_title p)"
          and "py_lower U (c_name (p_category p)) = py_lower U' (c_name (p_category p))"
          using ps [OF Inr] by (simp_all add: py_lower_ascii_tables [of _ U U'])
        moreover have "py_lower U (ustr (py_str (p_id p))) = py_lower U' (ustr (py_str (p_id p)))"
          using py_str_ascii by (rule py_lower_ascii_tables)
        ultimately show "(py_in (py_lower U' (py_strip U' ?q)) (py_lower U (ustr (py_str (p_id p))))
                   \<or> py_in (py_lower U' (py_strip U' ?q)) (py_lower U (p_title p))
                   \<or> py_in (py_lower U' (py_strip U' ?q)) (py_lower U (c_name (p_category p))))
            = (py_in (py_lower U' (py_strip U' ?q)) (py_lower U' (ustr (py_str (p_id p))))
                   \<or> py_in (py_lower U' (py_strip U' ?q)) (py_lower U' (p_title p))
                   \<or> py_in (py_lower U' (py_strip U' ?q)) (py_lower U' (c_name (p_category p))))"
          by simp
      qed
    qed
    show ?thesis
      using Inr l f [of "json r"]
        f [of "filter (\<lambda>p. c_name (p_category p) = GET_get request ''category'' (ustr ''All'')) (json r)"]
      by (simp add: product_list_def Let_def split: sum.splits)
  qed
qed

lemma ustr_ascii_example: "\<forall>c \<in> set (ustr '' mug''). c < 128"
  by (simp add: ustr_def)

lemma examples_ascii:
  "(\<forall>c \<in> set (p_title shirt). c < 128) \<and> (\<forall>c \<in> set (c_name (p_category shirt)). c < 128)
   \<and> (\<forall>c \<in> set (p_title mug). c < 128) \<and> (\<forall>c \<in> set (c_name (p_category mug)). c < 128)"
  by (simp add: shirt_def mug_def ustr_def)

lemma product_list_examples_any_tables:
  "product_list U (ok_reply [shirt, mug])
     \<lparr>http_method = ''GET'', GET = [''category'' \<mapsto> ustr ''Clothes'', ''q'' \<mapsto> ustr ''mug'']\<rparr>
   = product_list plain_unicode (ok_reply [shirt, mug])
     \<lparr>http_method = ''GET'', GET = [''category'' \<mapsto> ustr ''Clothes'', ''q'' \<mapsto> ustr ''mug'']\<rparr>"
  and "product_list U (ok_reply [shirt, mug]) \<lparr>http_method = ''GET'', GET = [''q'' \<mapsto> ustr '' mug'']\<rparr>
   = product_list plain_unicode (ok_reply [shirt, mug])
       \<lparr>http_method = ''GET'', GET = [''q'' \<mapsto> ustr '' mug'']\<rparr>"
  using examples_ascii
  by (intro product_list_ascii; auto simp: GET_get_def ustr_def ok_reply_def)+

text \<open>
  Accented text and whitespace beyond ASCII, under tables that agree with Unicode up to
  code point 255: a search for the title in small letters finds the product with the
  capital E with acute; a no-break space around the term is stripped; and a term of one
  no-break space is blank, so the category alone selects.
\<close>

lemma product_list_e_acute_example:
  "product_list latin1_unicode (ok_reply [shirt, cafe])
     \<lparr>http_method = ''GET'', GET = [''q'' \<mapsto> ustr ''caf'' @ [233]]\<rparr> =
     Render ''products/product_list.html''
       \<lparr>productos = [cafe], categorias = [ustr ''All'', ustr ''Clothes'', ustr ''Home''],
        selected = ustr ''All''\<rparr>"
  by code_simp

lemma product_list_no_break_space_example:
  "product_list latin1_unicode (ok_reply [shirt, mug])
     \<lparr>http_method = ''GET'', GET = [''q'' \<mapsto> 160 # ustr ''mug'']\<rparr> =
     Render ''products/product_list.html''
       \<lparr>productos = [mug], categorias = [ustr ''All'', ustr ''Clothes'', ustr ''Home''],
        selected = ustr ''All''\<rparr>
   \<and> product_list latin1_unicode (ok_reply [shirt, mug])
     \<lparr>http_method = ''GET'', GET = [''category'' \<mapsto> ustr ''Clothes'', ''q'' \<mapsto> [160]]\<rparr> =
     Render ''products/product_list.html''
       \<lparr>productos = [shirt], categorias = [ustr ''All'', ustr ''Clothes'', ustr ''Home''],
        selected = ustr ''Clothes''\<rparr>
   \<and> py_strip latin1_unicode [160] = []"
  by code_simp

section \<open>Properties of the deletion\<close>

text \<open>
  Claim C4. For every product id, whatever the remote server does with the DELETE (it
  times out, it answers with an error status, it succeeds), \<open>product_delete\<close> answers
  with the redirect to the product list: a failure is swallowed, and the answer is the one
  of a success.
\<close>

theorem product_delete_redirects:
  "fst (product_delete server request product_id w) = Redirect ''products:product_list''"
  by (simp add: product_delete_def Let_def)

theorem product_delete_redirects_witness:
  "fst (product_delete failing_server \<lparr>http_method = ''POST'', GET = Map.empty\<rparr> 1
          \<lparr>catalog = [shirt, mug], calls = []\<rparr>) = Redirect ''products:product_list''
   \<and> fst (product_delete dropping_server \<lparr>http_method = ''POST'', GET = Map.empty\<rparr> 1
          \<lparr>catalog = [shirt, mug], calls = []\<rparr>) = Redirect ''products:product_list''"
  using product_delete_redirects [of failing_server "\<lparr>http_method = ''POST'', GET = Map.empty\<rparr>" 1
      "\<lparr>catalog = [shirt, mug], calls = []\<rparr>"]
    product_delete_redirects [of dropping_server "\<lparr>http_method = ''POST'', GET = Map.empty\<rparr>" 1
      "\<lparr>catalog = [shirt, mug], calls = []\<rparr>"]
  by simp

lemma delete_url_example:
  "base_url @ ''products/'' @ py_str 1 = ''https://api.escuelajs.co/api/v1/products/1''"
  by code_simp

text \<open>
  Claim C10. \<open>product_delete\<close> issues the remote DELETE only when the inbound method is
  POST: for any other method it issues no call, leaves the remote catalog as it is and
  redirects to the product list; for POST it issues exactly the one DELETE of the product.
\<close>

theorem product_delete_only_on_post:
  "(http_method request \<noteq> ''POST'' \<longrightarrow>
      product_delete server request product_id w = (Redirect ''products:product_list'', w))
   \<and> (http_method request = ''POST'' \<longrightarrow>
      calls (snd (product_delete server request product_id w)) =
        calls w @ [\<lparr>verb = ''DELETE'', url = base_url @ ''products/'' @ py_str product_id,
                    timeout = 5\<rparr>])"
  by (auto simp: product_delete_def requests_delete_def Let_def split: prod.splits sum.splits)

theorem product_delete_only_on_post_witness:
  "product_delete dropping_server \<lparr>http_method = ''GET'', GET = Map.empty\<rparr> 1
      \<lparr>catalog = [shirt, mug], calls = []\<rparr> =
     (Redirect ''products:product_list'', \<lparr>catalog = [shirt, mug], calls = []\<rparr>)
   \<and> calls (snd (product_delete dropping_server \<lparr>http_method = ''POST'', GET = Map.empty\<rparr> 1
                   \<lparr>catalog = [shirt, mug], calls = []\<rparr>)) =
       [\<lparr>verb = ''DELETE'', url = ''https://api.escuelajs.co/api/v1/products/1'', timeout = 5\<rparr>]"
  using product_delete_only_on_post [of "\<lparr>http_method = ''GET'', GET = Map.empty\<rparr>" dropping_server 1
      "\<lparr>catalog = [shirt, mug], calls = []\<rparr>"]
    product_delete_only_on_post [of "\<lparr>http_method = ''POST'', GET = Map.empty\<rparr>" dropping_server 1
      "\<lparr>catalog = [shirt, mug], calls = []\<rparr>"] delete_url_example
  by simp

section \<open>Properties of the token table\<close>

lemma filter_empty_not_in:
  "filter (\<lambda>t. token_user t = i) toks = [] \<Longrightarrow> i \<notin> set (map token_user toks)"
  by (auto simp: filter_empty_conv)

lemma get_or_create_tokens:
  "snd (get_or_create toks u k) = toks
   \<or> (filter (\<lambda>t. token_user t = user_id u) toks = []
      \<and> snd (get_or_create toks u k) = toks @ [\<lparr>key = k, token_user = user_id u\<rparr>])"
  by (auto simp: get_or_create_def Let_def split: list.splits)

lemma get_or_create_distinct:
  assumes "distinct (map token_user toks)"
  shows "distinct (map token_user (snd (get_or_create toks u k)))"
  using get_or_create_tokens [of toks u k] assms
  by (auto dest: filter_empty_not_in)

lemma get_or_create_keeps:
  assumes "filter (\<lambda>x. token_user x = i) toks = [t]"
    and "user_id v \<noteq> i \<or> filter (\<lambda>x. token_user x = user_id v) toks \<noteq> []"
  shows "filter (\<lambda>x. token_user x = i) (snd (get_or_create toks v k)) = [t]"
  using get_or_create_tokens [of toks v k] assms by auto

text \<open>The database each view leaves.\<close>

lemma register_api_db:
  "snd (register_api d rd k) =
     (if registration_errors (users d) rd = []
      then d\<lparr>users := users d @ [create_user (users d) rd],
             tokens := snd (get_or_create (tokens d) (create_user (users d) rd) k)\<rparr>
      else d)"
  by (simp add: register_api_def Let_def split: prod.splits sum.splits)

lemma login_api_db:
  "snd (login_api d rd k) =
     (case login_validate (users d) rd of
        Inl errs \<Rightarrow> d
      | Inr u \<Rightarrow> d\<lparr>tokens := snd (get_or_create (tokens d) u k)\<rparr>)"
  by (simp add: login_api_def Let_def split: prod.splits sum.splits)

lemma logout_api_tokens:
  "\<exists>P. tokens (snd (logout_api d ru)) = filter P (tokens d)"
proof (cases ru)
  case None
  then have "tokens (snd (logout_api d ru)) = filter (\<lambda>t. True) (tokens d)"
    by (simp add: logout_api_def)
  then show ?thesis by blast
next
  case (Some uid)
  show ?thesis
  proof (cases "filter (\<lambda>t. token_user t = uid) (tokens d)")
    case Nil
    with Some have "tokens (snd (logout_api d ru)) = filter (\<lambda>t. True) (tokens d)"
      by (simp add: logout_api_def)
    then show ?thesis by blast
  next
    case outer: (Cons t ts)
    show ?thesis
    proof (cases ts)
      case Nil
      with outer Some
      have "tokens (snd (logout_api d ru)) = filter (\<lambda>t'. key t' \<noteq> key t) (tokens d)"
        by (simp add: logout_api_def)
      then show ?thesis by blast
    next
      case (Cons t' ts')
      with outer Some
      have "tokens (snd (logout_api d ru)) = filter (\<lambda>t. True) (tokens d)"
        by (simp add: logout_api_def)
      then show ?thesis by blast
    qed
  qed
qed

text \<open>No operation gives a user a second token.\<close>

lemma apply_op_invariant:
  assumes "distinct (map token_user (tokens d))"
  shows "distinct (map token_user (tokens (apply_op d op)))"
proof (cases op)
  case (Register rd k)
  then show ?thesis
    using assms by (simp add: register_api_db get_or_create_distinct)
next
  case (Login rd k)
  then show ?thesis
    using assms by (simp add: login_api_db get_or_create_distinct split: sum.splits)
next
  case (Logout ru)
  then show ?thesis
    using logout_api_tokens [of d ru] assms by (auto simp: distinct_map_filter)
qed

lemma run_invariant:
  "distinct (map token_user (tokens d)) \<Longrightarrow> distinct (map token_user (tokens (run ops d)))"
  unfolding run_def
  by (induction ops arbitrary: d) (simp_all add: apply_op_invariant)

lemma distinct_filter_le_1:
  "distinct (map f xs) \<Longrightarrow> length (filter (\<lambda>x. f x = a) xs) \<le> 1"
  by (induction xs) (auto simp: filter_empty_conv image_iff)

text \<open>
  Claim C5. In every state that a sequence of register, login and logout operations
  reaches from the empty database, the token table holds at most one row for each user.
\<close>

theorem at_most_one_token_per_user:
  "length (filter (\<lambda>t. token_user t = uid) (tokens (run ops empty_db))) \<le> 1"
proof -
  have "distinct (map token_user (tokens empty_db))"
    by (simp add: empty_db_def)
  then have "distinct (map token_user (tokens (run ops empty_db)))"
    by (rule run_invariant)
  then show ?thesis
    by (rule distinct_filter_le_1)
qed

theorem at_most_one_token_per_user_witness:
  "length (filter (\<lambda>t. token_user t = 1)
     (tokens (run [Register ana_form ''k1'', Login ana_login ''k2'', Logout (Some 1),
                   Login ana_login ''k3'', Login ana_login ''k4''] empty_db))) \<le> 1"
  using at_most_one_token_per_user [of 1 "[Register ana_form ''k1'', Login ana_login ''k2'',
      Logout (Some 1), Login ana_login ''k3'', Login ana_login ''k4'']"]
  by simp

section \<open>Properties of registration and login\<close>

lemma foldr_max_ge: "x \<in> set xs \<Longrightarrow> x \<le> foldr max xs (0::nat)"
  by (induction xs) (auto simp: max_def)

lemma new_id_fresh: "u \<in> set us \<Longrightarrow> user_id u < new_id us"
  using foldr_max_ge [of "user_id u" "map user_id us"] by (simp add: new_id_def)

lemma find_Some_mem: "find P xs = Some x \<Longrightarrow> x \<in> set xs"
  by (induction xs) (auto split: if_splits)

lemma find_append_Some: "find P xs = Some x \<Longrightarrow> find P (xs @ ys) = Some x"
  by (induction xs) (auto split: if_splits)

lemma find_append_new: "\<forall>x \<in> set xs. \<not> P x \<Longrightarrow> P y \<Longrightarrow> find P (xs @ [y]) = Some y"
  by (induction xs) auto

lemma registration_errors_fields:
  "set (map fst (registration_errors us rd)) \<subseteq> {''username'', ''email'', ''password'', ''password2''}"
  by (auto simp: registration_errors_def)

lemma registration_errors_weak:
  assumes "length (field rd ''password'') < 8 \<or> field rd ''password'' \<noteq> field rd ''password2''"
  shows "registration_errors us rd \<noteq> []"
proof -
  have "password_errors (field rd ''password'') \<noteq> []
        \<or> password2_errors (field rd ''password'') (field rd ''password2'') \<noteq> []"
    using assms by (auto simp: password_errors_def password2_errors_def)
  then show ?thesis
    by (auto simp: registration_errors_def)
qed

lemma registration_valid:
  assumes "registration_errors us rd = []"
  shows "field rd ''username'' \<noteq> []" and "field rd ''username'' \<notin> set (map username us)"
    and "field rd ''password'' \<noteq> []"
proof -
  have u: "username_errors us (field rd ''username'') = []"
    and p: "password_errors (field rd ''password'') = []"
    using assms by (simp_all add: registration_errors_def split: if_splits)
  show "field rd ''username'' \<noteq> []"
    using u by (auto simp: username_errors_def split: if_splits)
  show "field rd ''username'' \<notin> set (map username us)"
    using u by (auto simp: username_errors_def split: if_splits)
  show "field rd ''password'' \<noteq> []"
    using p by (auto simp: password_errors_def split: if_splits)
qed

text \<open>Registrations and logins leave a user its name and its token.\<close>

lemma holds_token_register:
  assumes "holds_token u t d"
  shows "holds_token u t (snd (register_api d rd k))"
proof (cases "registration_errors (users d) rd = []")
  case False
  then show ?thesis using assms by (simp add: register_api_db)
next
  case True
  let ?v = "create_user (users d) rd"
  have "u \<in> set (users d)"
    using assms by (auto simp: holds_token_def dest: find_Some_mem)
  then have "user_id ?v \<noteq> user_id u"
    using new_id_fresh [of u "users d"] by (simp add: create_user_def)
  then have "filter (\<lambda>x. token_user x = user_id u) (snd (get_or_create (tokens d) ?v k)) = [t]"
    using assms by (intro get_or_create_keeps) (simp_all add: holds_token_def)
  moreover have "find (\<lambda>x. username x = username u) (users d @ [?v]) = Some u"
    using assms by (simp add: holds_token_def find_append_Some)
  ultimately show ?thesis
    using True by (simp add: register_api_db holds_token_def)
qed

lemma holds_token_login:
  assumes "holds_token u t d"
  shows "holds_token u t (snd (login_api d rd k))"
proof (cases "login_validate (users d) rd")
  case (Inl errs)
  then show ?thesis using assms by (simp add: login_api_db)
next
  case (Inr v)
  have "user_id v \<noteq> user_id u \<or> filter (\<lambda>x. token_user x = user_id v) (tokens d) \<noteq> []"
    using assms by (cases "user_id v = user_id u") (simp_all add: holds_token_def)
  then have "filter (\<lambda>x. token_user x = user_id u) (snd (get_or_create (tokens d) v k)) = [t]"
    using assms by (intro get_or_create_keeps) (simp_all add: holds_token_def)
  then show ?thesis
    using Inr assms by (simp add: login_api_db holds_token_def)
qed

lemma holds_token_apply_op:
  "holds_token u t d \<Longrightarrow> \<not> is_logout op \<Longrightarrow> holds_token u t (apply_op d op)"
  by (cases op) (simp_all add: holds_token_register holds_token_login)

lemma holds_token_run:
  "holds_token u t d \<Longrightarrow> no_logout ops \<Longrightarrow> holds_token u t (run ops d)"
  unfolding run_def no_logout_def
  by (induction ops arbitrary: d) (simp_all add: holds_token_apply_op)

lemma login_api_holds_token:
  assumes "holds_token u t d"
    and "field creds ''username'' = username u" and "username u \<noteq> []"
    and "password u = Hashed (field creds ''password'')" and "field creds ''password'' \<noteq> []"
  shows "login_api d creds k =
           (Inr \<lparr>status = 200,
                 data = [(''success'', JBool True),
                         (''message'', JStr (''Autenticaci'' @ o_acute @ ''n satisfactoria'')),
                         (''user'', UserSerializer u),
                         (''token'', JStr (key t))]\<rparr>, d)"
proof -
  have "authenticate (users d) (field creds ''username'') (field creds ''password'') = Some u"
    using assms by (simp add: authenticate_def holds_token_def)
  then have "login_validate (users d) creds = Inr u"
    using assms(2,3,5) by (simp add: login_validate_def)
  moreover have "get_or_create (tokens d) u k = (Inr (t, False), tokens d)"
    using assms(1) by (simp add: get_or_create_def holds_token_def)
  ultimately show ?thesis
    by (simp add: login_api_def)
qed

lemma register_api_created:
  assumes "register_api d rd k = (Inr resp, d1)" and "status resp = 201"
  shows "\<exists>t. holds_token (create_user (users d) rd) t d1
             \<and> map_of (data resp) ''token'' = Some (JStr (key t))
             \<and> registration_errors (users d) rd = []"
proof -
  let ?u = "create_user (users d) rd"
  have valid: "registration_errors (users d) rd = []"
    using assms by (auto simp: register_api_def Let_def split: if_splits)
  obtain r toks where g: "get_or_create (tokens d) ?u k = (r, toks)"
    by (cases "get_or_create (tokens d) ?u k")
  obtain t c where r: "r = Inr (t, c)"
    using assms(1) valid g by (cases r) (auto simp: register_api_def Let_def)
  have d1: "d1 = d\<lparr>users := users d @ [?u], tokens := toks\<rparr>"
    and tok: "map_of (data resp) ''token'' = Some (JStr (key t))"
    using assms(1) valid g r by (auto simp: register_api_def Let_def)
  have "filter (\<lambda>x. token_user x = user_id ?u) toks = [t]"
    using g r by (auto simp: get_or_create_def Let_def split: list.splits if_splits)
  moreover have "find (\<lambda>x. username x = username ?u) (users d @ [?u]) = Some ?u"
    using registration_valid(2) [OF valid]
    by (intro find_append_new) (auto simp: create_user_def image_iff)
  ultimately have "holds_token ?u t d1"
    by (simp add: holds_token_def d1)
  with tok valid show ?thesis by blast
qed

lemma register_example:
  "register_api empty_db ana_form ''k1'' =
     (Inr \<lparr>status = 201,
           data = [(''success'', JBool True),
                   (''message'', JStr ''Usuario registrado satisfactoriamente''),
                   (''user'', UserSerializer ana),
                   (''token'', JStr ''k1'')]\<rparr>, ana_db)"
  by code_simp

text \<open>
  Claim C6. When \<open>register_api\<close> has created a user (it answered 201), a later
  \<open>login_api\<close> call with that user's username and password, after any history of
  registrations and logins without a logout, answers 200 with the token that
  \<open>register_api\<close> returned.
\<close>

theorem login_api_reuses_token:
  assumes "register_api d request_data k = (Inr resp, d1)" and "status resp = 201"
    and "no_logout ops"
    and "field credentials ''username'' = field request_data ''username''"
    and "field credentials ''password'' = field request_data ''password''"
  shows "\<exists>resp' d2. login_api (run ops d1) credentials k' = (Inr resp', d2)
           \<and> status resp' = 200
           \<and> map_of (data resp') ''token'' = map_of (data resp) ''token''
           \<and> map_of (data resp) ''token'' \<noteq> None"
proof -
  let ?u = "create_user (users d) request_data"
  obtain t where h: "holds_token ?u t d1"
    and tok: "map_of (data resp) ''token'' = Some (JStr (key t))"
    and valid: "registration_errors (users d) request_data = []"
    using register_api_created [OF assms(1,2)] by blast
  have "holds_token ?u t (run ops d1)"
    using h assms(3) by (rule holds_token_run)
  moreover have "field credentials ''username'' = username ?u"
    using assms(4) by (simp add: create_user_def)
  moreover have "username ?u \<noteq> []"
    using registration_valid(1) [OF valid] by (simp add: create_user_def)
  moreover have "password ?u = Hashed (field credentials ''password'')"
    using assms(5) by (simp add: create_user_def make_password_def)
  moreover have "field credentials ''password'' \<noteq> []"
    using registration_valid(3) [OF valid] assms(5) by simp
  ultimately have "login_api (run ops d1) credentials k' =
      (Inr \<lparr>status = 200,
            data = [(''success'', JBool True),
                    (''message'', JStr (''Autenticaci'' @ o_acute @ ''n satisfactoria'')),
                    (''user'', UserSerializer ?u),
                    (''token'', JStr (key t))]\<rparr>, run ops d1)"
    by (rule login_api_holds_token)
  with tok show ?thesis by simp
qed

theorem login_api_reuses_token_witness:
  "\<exists>resp' d2.
      login_api (run [Login ana_login ''k2'', Register (ana_form(''username'' \<mapsto> ''bea'')) ''k3''] ana_db)
        ana_login ''k4'' = (Inr resp', d2)
      \<and> status resp' = 200
      \<and> map_of (data resp') ''token'' = Some (JStr ''k1'')"
  using login_api_reuses_token [OF register_example,
      of "[Login ana_login ''k2'', Register (ana_form(''username'' \<mapsto> ''bea'')) ''k3'']" ana_login "''k4''"]
  by (simp add: no_logout_def field_def ana_login_def ana_form_def)

text \<open>
  Claim C7. For every registration request whose password is shorter than 8 characters
  or differs from its confirmation, \<open>register_api\<close> answers 400 with a non-empty set
  of errors keyed by the form's fields, and the database is the one before the call: no
  user is created and no token issued.
\<close>

theorem register_api_rejects_bad_password:
  assumes "length (field request_data ''password'') < 8
           \<or> field request_data ''password'' \<noteq> field request_data ''password2''"
  shows "\<exists>errs. errs \<noteq> []
           \<and> set (map fst errs) \<subseteq> {''username'', ''email'', ''password'', ''password2''}
           \<and> register_api d request_data k =
               (Inr \<lparr>status = 400,
                     data = [(''success'', JBool False),
                             (''message'', JStr ''Error en el registro''),
                             (''errors'', errors_json errs)]\<rparr>, d)"
proof -
  let ?errs = "registration_errors (users d) request_data"
  have "?errs \<noteq> []"
    using assms by (rule registration_errors_weak)
  moreover have "set (map fst ?errs) \<subseteq> {''username'', ''email'', ''password'', ''password2''}"
    by (rule registration_errors_fields)
  ultimately show ?thesis
    by (auto simp: register_api_def Let_def)
qed

theorem register_api_rejects_bad_password_witness:
  "\<exists>errs. errs \<noteq> []
      \<and> set (map fst errs) \<subseteq> {''username'', ''email'', ''password'', ''password2''}
      \<and> register_api ana_db
           (ana_form(''username'' \<mapsto> ''bea'', ''password'' \<mapsto> ''short'', ''password2'' \<mapsto> ''short'')) ''k2'' =
          (Inr \<lparr>status = 400,
                data = [(''success'', JBool False),
                        (''message'', JStr ''Error en el registro''),
                        (''errors'', errors_json errs)]\<rparr>, ana_db)"
  using register_api_rejects_bad_password
    [of "ana_form(''username'' \<mapsto> ''bea'', ''password'' \<mapsto> ''short'', ''password2'' \<mapsto> ''short'')"
        ana_db "''k2''"]
  by (simp add: field_def)

section \<open>Properties of the username check\<close>

text \<open>
  Claim C8. For every non-empty username, \<open>check_username_api\<close> answers 200 with
  \<open>available\<close> false exactly when a user of that name is in the user table, and true
  otherwise; the database after the call is the one before it.
\<close>

theorem check_username_api_available:
  assumes "GET request ''username'' = Some name" and "name \<noteq> []"
  shows "check_username_api d request =
           (\<lparr>status = 200,
             data = [(''success'', JBool True),
                     (''available'', JBool (name \<notin> set (map username (users d)))),
                     (''message'', JStr (if name \<in> set (map username (users d))
                                         then ''Nombre de usuario no disponible''
                                         else ''Nombre de usuario disponible''))]\<rparr>, d)"
proof -
  have "GET_get request ''username'' '''' = name"
    using assms(1) by (simp add: GET_get_def)
  moreover have "list_ex (\<lambda>u. username u = name) (users d) \<longleftrightarrow> name \<in> set (map username (users d))"
    by (auto simp: list_ex_iff)
  ultimately show ?thesis
    using assms(2) by (simp add: check_username_api_def Let_def)
qed

theorem check_username_api_available_witness:
  "check_username_api ana_db \<lparr>http_method = ''GET'', GET = [''username'' \<mapsto> ''ana'']\<rparr> =
     (\<lparr>status = 200,
       data = [(''success'', JBool True), (''available'', JBool False),
               (''message'', JStr ''Nombre de usuario no disponible'')]\<rparr>, ana_db)
   \<and> check_username_api ana_db \<lparr>http_method = ''GET'', GET = [''username'' \<mapsto> ''bea'']\<rparr> =
     (\<lparr>status = 200,
       data = [(''success'', JBool True), (''available'', JBool True),
               (''message'', JStr ''Nombre de usuario disponible'')]\<rparr>, ana_db)"
  using check_username_api_available
      [of "\<lparr>http_method = ''GET'', GET = [''username'' \<mapsto> ''ana'']\<rparr>" "''ana''" ana_db]
    check_username_api_available
      [of "\<lparr>http_method = ''GET'', GET = [''username'' \<mapsto> ''bea'']\<rparr>" "''bea''" ana_db]
  by (simp add: ana_db_def ana_def)

text \<open>
  Claim C9. If the \<open>username\<close> query parameter is absent or empty,
  \<open>check_username_api\<close> answers 400 with \<open>success\<close> false and a message, and the
  answer has no \<open>available\<close> field.
\<close>

theorem check_username_api_missing:
  assumes "GET request ''username'' = None \<or> GET request ''username'' = Some []"
  shows "check_username_api d request =
           (\<lparr>status = 400,
             data = [(''success'', JBool False),
                     (''message'', JStr ''Debe proporcionar un nombre de usuario'')]\<rparr>, d)
         \<and> map_of (data (fst (check_username_api d request))) ''available'' = None"
proof -
  have "GET_get request ''username'' '''' = []"
    using assms by (auto simp: GET_get_def)
  then show ?thesis
    by (simp add: check_username_api_def Let_def)
qed

theorem check_username_api_missing_witness:
  "check_username_api ana_db \<lparr>http_method = ''GET'', GET = Map.empty\<rparr> =
     (\<lparr>status = 400,
       data = [(''success'', JBool False),
               (''message'', JStr ''Debe proporcionar un nombre de usuario'')]\<rparr>, ana_db)
   \<and> map_of (data (fst (check_username_api ana_db \<lparr>http_method = ''GET'', GET = Map.empty\<rparr>)))
        ''available'' = None
   \<and> check_username_api ana_db \<lparr>http_method = ''GET'', GET = [''username'' \<mapsto> '''']\<rparr> =
     (\<lparr>status = 400,
       data = [(''success'', JBool False),
               (''message'', JStr ''Debe proporcionar un nombre de usuario'')]\<rparr>, ana_db)"
  using check_username_api_missing [of "\<lparr>http_method = ''GET'', GET = Map.empty\<rparr>" ana_db]
    check_username_api_missing [of "\<lparr>http_method = ''GET'', GET = [''username'' \<mapsto> '''']\<rparr>" ana_db]
  by simp

end
